theory Spec2Isabelle
  imports Main "HOL-Library.AList"
begin

section \<open>Python values and exceptions\<close>

text \<open>
  The program is \<^verbatim>\<open>FrEIA/framework/reversible_graph_net.py\<close>. A \<^verbatim>\<open>Node\<close> object
  defines neither \<^verbatim>\<open>__eq__\<close> nor \<^verbatim>\<open>__hash__\<close>, so sets and dictionaries compare
  nodes by identity: a node is modelled by its identity, a natural number. Tensors are
  opaque to the graph code (it only adds Jacobians), so they are a type parameter.
  \<open>IntV\<close> holds the integers (the Booleans among them), and \<open>OtherV\<close> stands for a
  value of any other kind (a string, a float, a module): it is no list, tuple, node,
  tensor or integer.
\<close>

datatype 't py =
    Tensor 't
  | NoneV
  | IntV int
  | NodeV nat
  | ListV "'t py list"
  | TupleV "'t py list"
  | OtherV

datatype msg =
    CannotParseInputs nat
  | InvalidInputType nat
  | NoInputNodes
  | NoOutputNodes
  | NotConnected nat
  | GraphIsCyclic
  | ReturnedTensorOnly nat
  | ReturnedTupleOfLength nat nat
  | ReturnsTensor nat
  | ReturnedOutputs nat nat nat
  | NonTensorJacobian nat
  | NeitherNoneNorJacobian nat
  | InvalidLiteral
  | UnpackCount nat
  | DoesNotAcceptConditions
  | ForbiddenByConstructor

datatype error =
    RuntimeError msg
  | AssertionError msg
  | ValueError msg
  | KeyError
  | TypeError
  | IndexError
  | AttributeError string

text \<open>\<^verbatim>\<open>isinstance(v, (list, tuple))\<close>, \<^verbatim>\<open>isinstance(v, Node)\<close>, \<^verbatim>\<open>torch.is_tensor(v)\<close>.\<close>

fun is_seq :: "'t py \<Rightarrow> bool" where
  "is_seq (ListV _) = True"
| "is_seq (TupleV _) = True"
| "is_seq _ = False"

fun is_node :: "'t py \<Rightarrow> bool" where
  "is_node (NodeV _) = True"
| "is_node _ = False"

fun is_tensor :: "'t py \<Rightarrow> bool" where
  "is_tensor (Tensor _) = True"
| "is_tensor _ = False"

text \<open>The elements of a list or tuple (no elements for a value that is neither).\<close>

fun items :: "'t py \<Rightarrow> 't py list" where
  "items (ListV xs) = xs"
| "items (TupleV xs) = xs"
| "items _ = []"

section \<open>Node.parse\_inputs\<close>

text \<open>
  \<^verbatim>\<open>
  if isinstance(inputs, (list, tuple)):
      if len(inputs) == 0: return inputs
      elif isinstance(inputs[0], (list, tuple)): return inputs
      elif len(inputs) == 2: return [inputs, ]
      else: raise RuntimeError(f"Cannot parse inputs provided to node '{self.name}'.")
  else:
      assert isinstance(inputs, Node), "Received object of invalid type ..."
      return [(inputs, 0), ]
  \<close>
\<close>

definition parse_inputs :: "nat \<Rightarrow> 't py \<Rightarrow> error + 't py" where
  "parse_inputs self inputs =
     (if is_seq inputs then
        (if length (items inputs) = 0 then Inr inputs
         else if is_seq (hd (items inputs)) then Inr inputs
         else if length (items inputs) = 2 then Inr (ListV [inputs])
         else Inl (RuntimeError (CannotParseInputs self)))
      else
        (if is_node inputs then Inr (ListV [TupleV [inputs, IntV 0]])
         else Inl (AssertionError (InvalidInputType self))))"



section \<open>Output-slot attributes: Node.\_\_init\_\_ and Node.\_\_getattr\_\_\<close>

text \<open>
  \<^verbatim>\<open>'{0}'.format(i)\<close> for a non-negative integer: its decimal digits.
\<close>

definition digit_char :: "nat \<Rightarrow> char" where
  "digit_char d = char_of (48 + d)"

fun str_nat :: "nat \<Rightarrow> string" where
  "str_nat n = (if n < 10 then [digit_char n] else str_nat (n div 10) @ [digit_char (n mod 10)])"

declare str_nat.simps [simp del]

text \<open>
  The built-in \<^verbatim>\<open>int(s)\<close> on a string, for ASCII input: surrounding whitespace is
  stripped, one sign is allowed, and the digits may be grouped by single underscores;
  anything else raises ValueError.
\<close>

definition is_digit :: "char \<Rightarrow> bool" where
  "is_digit c = (48 \<le> (of_char c :: nat) \<and> (of_char c :: nat) \<le> 57)"

definition digit_val :: "char \<Rightarrow> nat" where
  "digit_val c = of_char c - 48"

definition is_space :: "char \<Rightarrow> bool" where
  "is_space c = ((of_char c :: nat) = 32 \<or> (9 \<le> (of_char c :: nat) \<and> (of_char c :: nat) \<le> 13)
     \<or> (28 \<le> (of_char c :: nat) \<and> (of_char c :: nat) \<le> 31))"

definition strip :: "string \<Rightarrow> string" where
  "strip s = rev (dropWhile is_space (rev (dropWhile is_space s)))"

fun digits_value :: "bool \<Rightarrow> nat \<Rightarrow> string \<Rightarrow> nat option" where
  "digits_value prev acc [] = (if prev then Some acc else None)"
| "digits_value prev acc (c # cs) =
     (if is_digit c then digits_value True (10 * acc + digit_val c) cs
      else if c = CHR ''_'' \<and> prev then digits_value False acc cs
      else None)"

definition py_int :: "string \<Rightarrow> error + int" where
  "py_int s =
     (case strip s of
        [] \<Rightarrow> Inl (ValueError InvalidLiteral)
      | c # cs \<Rightarrow>
          if c = CHR ''-'' then
            (case digits_value False 0 cs of
               None \<Rightarrow> Inl (ValueError InvalidLiteral)
             | Some v \<Rightarrow> Inr (- int v))
          else
            (case digits_value False 0 (if c = CHR ''+'' then cs else c # cs) of
               None \<Rightarrow> Inl (ValueError InvalidLiteral)
             | Some v \<Rightarrow> Inr (int v)))"

text \<open>
  \<^verbatim>\<open>
  for i in range(256):
      exec('self.out{0} = (self, {0})'.format(i))
  \<close>
  The instance attributes this loop assigns, as a dictionary from attribute names. The
  other instance attributes of a node (\<^verbatim>\<open>name\<close>, \<^verbatim>\<open>inputs\<close>, \<^verbatim>\<open>conditions\<close>,
  \<^verbatim>\<open>outputs\<close>, \<^verbatim>\<open>module_type\<close>, \<^verbatim>\<open>module_args\<close>, \<^verbatim>\<open>input_dims\<close>,
  \<^verbatim>\<open>condition_dims\<close>, \<^verbatim>\<open>module\<close>, \<^verbatim>\<open>output_dims\<close>, \<^verbatim>\<open>dims\<close>) are fields of the
  node record below.
\<close>

definition out_attrs :: "nat \<Rightarrow> (string \<rightharpoonup> 't py)" where
  "out_attrs self =
     fold (\<lambda>i d. d(''out'' @ str_nat i \<mapsto> TupleV [NodeV self, IntV (int i)])) [0..<256] Map.empty"

text \<open>
  \<^verbatim>\<open>
  def __getattr__(self, item):
      if item.startswith("out"):
          return self, int(item[3:])
      raise AttributeError(item)
  \<close>
\<close>

definition getattr_hook :: "nat \<Rightarrow> string \<Rightarrow> error + 't py" where
  "getattr_hook self item =
     (if take 3 item = ''out'' then
        (case py_int (drop 3 item) of
           Inl e \<Rightarrow> Inl e
         | Inr k \<Rightarrow> Inr (TupleV [NodeV self, IntV k]))
      else Inl (AttributeError item))"

text \<open>
  The attribute access \<^verbatim>\<open>self.item\<close> for a name \<open>item\<close> that is none of the other
  instance attributes listed above: Python looks in the instance dictionary first and
  calls \<^verbatim>\<open>__getattr__\<close> only when the name is not found.
\<close>

definition out_attr :: "nat \<Rightarrow> string \<Rightarrow> error + 't py" where
  "out_attr self item =
     (case out_attrs self item of
        Some v \<Rightarrow> Inr v
      | None \<Rightarrow> getattr_hook self item)"

section \<open>Nodes\<close>

text \<open>
  The classes \<^verbatim>\<open>Node\<close>, \<^verbatim>\<open>InputNode\<close>, \<^verbatim>\<open>ConditionNode\<close> and \<^verbatim>\<open>OutputNode\<close>,
  and the attributes of a node that graph assembly and execution read. An entry of
  \<^verbatim>\<open>inputs\<close> or \<^verbatim>\<open>outputs\<close> is a pair of a node and an integer. The attribute
  \<^verbatim>\<open>module\<close> is \<^verbatim>\<open>None\<close> for the three boundary classes; a module is called with
  the gathered inputs, the gathered conditions (only when the node has conditions) and
  the flags \<^verbatim>\<open>rev\<close> and \<^verbatim>\<open>jac\<close>, and what it returns is any Python value.
\<close>

datatype node_class = Node | InputNode | ConditionNode | OutputNode

type_synonym 't module = "'t py list \<Rightarrow> 't py list option \<Rightarrow> bool \<Rightarrow> bool \<Rightarrow> 't py"

record 't node =
  cls :: node_class
  inputs :: "(nat \<times> int) list"
  conditions :: "nat list"
  outputs :: "(nat \<times> int) list"
  input_dims :: "int list list"
  output_dims :: "int list list"
  module :: "'t module option"

text \<open>The heap: the node object behind each identity.\<close>

type_synonym 't store = "nat \<Rightarrow> 't node"

section \<open>Python containers\<close>

text \<open>
  \<^verbatim>\<open>xs[i]\<close> on a list: a negative index counts from the end, an index out of range
  raises IndexError.
\<close>

definition py_index :: "'a list \<Rightarrow> int \<Rightarrow> error + 'a" where
  "py_index xs i =
     (if i < - int (length xs) \<or> int (length xs) \<le> i then Inl IndexError
      else if i < 0 then Inr (xs ! nat (int (length xs) + i))
      else Inr (xs ! nat i))"

text \<open>
  A set of nodes is a list without duplicates; \<^verbatim>\<open>add\<close> keeps the order of first
  insertion (CPython iterates a set in hash order, here the order of insertion stands
  for it), \<^verbatim>\<open>remove\<close> raises KeyError for an element that is not there.
\<close>

definition set_add :: "nat \<Rightarrow> nat list \<Rightarrow> nat list" where
  "set_add x s = (if x \<in> set s then s else s @ [x])"

definition set_remove :: "nat \<Rightarrow> nat list \<Rightarrow> error + nat list" where
  "set_remove x s = (if x \<in> set s then Inr (removeAll x s) else Inl KeyError)"

text \<open>
  A dictionary from nodes to sets of nodes is an association list in insertion order.
  \<^verbatim>\<open>d[k]\<close> raises KeyError on a plain dictionary and gives the empty set on a
  \<^verbatim>\<open>defaultdict(set)\<close>.
\<close>

type_synonym edges = "(nat \<times> nat list) list"

definition dict_get :: "edges \<Rightarrow> nat \<Rightarrow> error + nat list" where
  "dict_get d k = (case map_of d k of None \<Rightarrow> Inl KeyError | Some s \<Rightarrow> Inr s)"

definition defaultdict_get :: "edges \<Rightarrow> nat \<Rightarrow> nat list" where
  "defaultdict_get d k = (case map_of d k of None \<Rightarrow> [] | Some s \<Rightarrow> s)"

section \<open>Node.\_\_init\_\_\<close>

text \<open>
  The values that reach the constructor are those of type \<open>py\<close>. Of these, only a list
  or a tuple can be unpacked by \<^verbatim>\<open>for input_node, node_out_idx in self.inputs\<close>, only a
  node has the attribute \<^verbatim>\<open>output_dims\<close>, and only an integer is an index into it; a
  value of any other kind raises where the constructor uses it so (for a string or a
  tensor the exception depends on its length, and TypeError stands for it; a slot is an
  integer, and a tensor is taken not to be one).
  \<^verbatim>\<open>
  input_shapes = [input_node.output_dims[node_out_idx]
                  for input_node, node_out_idx in self.inputs]
  \<close>
\<close>

definition unpack_pair :: "'t py \<Rightarrow> error + 't py \<times> 't py" where
  "unpack_pair v =
     (if is_seq v then
        (if length (items v) = 2 then Inr (items v ! 0, items v ! 1)
         else Inl (ValueError (UnpackCount (length (items v)))))
      else Inl TypeError)"

definition edge_shape :: "'t store \<Rightarrow> 't py \<Rightarrow> 't py \<Rightarrow> error + (nat \<times> int) \<times> int list" where
  "edge_shape h input_node' node_out_idx =
     (case input_node' of
        NodeV n \<Rightarrow>
          (case node_out_idx of
             IntV k \<Rightarrow>
               (case py_index (output_dims (h n)) k of
                  Inl e \<Rightarrow> Inl e
                | Inr d \<Rightarrow> Inr ((n, k), d))
           | _ \<Rightarrow> Inl TypeError)
      | _ \<Rightarrow> Inl (AttributeError ''output_dims''))"

fun input_shapes :: "'t store \<Rightarrow> 't py list \<Rightarrow> error + (nat \<times> int) list \<times> int list list" where
  "input_shapes h [] = Inr ([], [])"
| "input_shapes h (v # vs) =
     (case unpack_pair v of
        Inl e \<Rightarrow> Inl e
      | Inr (input_node', node_out_idx) \<Rightarrow>
          (case edge_shape h input_node' node_out_idx of
             Inl e \<Rightarrow> Inl e
           | Inr (edge, d) \<Rightarrow>
               (case input_shapes h vs of
                  Inl e \<Rightarrow> Inl e
                | Inr (edges, ds) \<Rightarrow> Inr (edge # edges, d # ds))))"

text \<open>
  \<^verbatim>\<open>
  if conditions is None: conditions = []
  ...
  if isinstance(conditions, (list, tuple)): self.conditions = conditions
  else: self.conditions = [conditions, ]
  ...
  condition_shapes = [cond_node.output_dims[0] for cond_node in self.conditions]
  \<close>
\<close>

definition parse_conditions :: "'t py \<Rightarrow> 't py list" where
  "parse_conditions conds =
     (if conds = NoneV then [] else if is_seq conds then items conds else [conds])"

fun condition_shapes :: "'t store \<Rightarrow> 't py list \<Rightarrow> error + nat list \<times> int list list" where
  "condition_shapes h [] = Inr ([], [])"
| "condition_shapes h (cond_node # rest) =
     (case cond_node of
        NodeV n \<Rightarrow>
          (case py_index (output_dims (h n)) 0 of
             Inl e \<Rightarrow> Inl e
           | Inr d \<Rightarrow>
               (case condition_shapes h rest of
                  Inl e \<Rightarrow> Inl e
                | Inr (ns, ds) \<Rightarrow> Inr (n # ns, d # ds)))
      | _ \<Rightarrow> Inl (AttributeError ''output_dims''))"

text \<open>
  \<^verbatim>\<open>build_module\<close>, by class. For \<^verbatim>\<open>Node\<close> the module is built by the given
  \<^verbatim>\<open>module_type\<close>, which receives the input shapes and, when the node has conditions,
  the condition shapes, and is then asked for its output shapes; the module type is not
  part of this file and either step may raise. \<^verbatim>\<open>InputNode\<close> and \<^verbatim>\<open>ConditionNode\<close>
  return \<^verbatim>\<open>None, [self.dims]\<close>, \<^verbatim>\<open>OutputNode\<close> returns \<^verbatim>\<open>None, []\<close>, and the three
  raise ValueError when given conditions.
\<close>

type_synonym 't module_type = "int list list \<Rightarrow> int list list option \<Rightarrow> error + 't module \<times> int list list"

definition build_module :: "node_class \<Rightarrow> int list \<Rightarrow> 't module_type \<Rightarrow> nat list \<Rightarrow>
    int list list \<Rightarrow> int list list \<Rightarrow> error + 't module option \<times> int list list" where
  "build_module c dims module_type conds c_shapes in_shapes =
     (case c of
        Node \<Rightarrow>
          (case module_type in_shapes (if length conds > 0 then Some c_shapes else None) of
             Inl e \<Rightarrow> Inl e
           | Inr (m, out_shapes) \<Rightarrow> Inr (Some m, out_shapes))
      | OutputNode \<Rightarrow>
          if length c_shapes > 0 then Inl (ValueError DoesNotAcceptConditions)
          else Inr (None, [])
      | _ \<Rightarrow>
          if length c_shapes > 0 then Inl (ValueError DoesNotAcceptConditions)
          else if length in_shapes \<noteq> 0 then Inl (AssertionError ForbiddenByConstructor)
          else Inr (None, [dims]))"

text \<open>
  \<^verbatim>\<open>
  for in_idx, (in_node, out_idx) in enumerate(self.inputs):
      in_node.outputs.append((self, in_idx))
  \<close>
\<close>

fun notify :: "nat \<Rightarrow> nat \<Rightarrow> (nat \<times> int) list \<Rightarrow> 't store \<Rightarrow> 't store" where
  "notify self in_idx [] h = h"
| "notify self in_idx ((in_node, out_idx) # rest) h =
     notify self (Suc in_idx) rest
       (h(in_node := (h in_node)\<lparr>outputs := outputs (h in_node) @ [(self, int in_idx)]\<rparr>))"

text \<open>
  The constructor, for the new object \<open>self\<close> of class \<open>c\<close>: it returns the heap with
  the new node in it and the producers notified. \<^verbatim>\<open>InputNode(*dims)\<close> and
  \<^verbatim>\<open>ConditionNode(*dims)\<close> call it with the inputs \<^verbatim>\<open>[]\<close>, \<^verbatim>\<open>OutputNode(inputs)\<close>
  with its inputs; \<open>dims\<close> matters for the first two only, \<open>module_type\<close> for
  \<^verbatim>\<open>Node\<close> only.
\<close>

definition node_init :: "'t store \<Rightarrow> nat \<Rightarrow> node_class \<Rightarrow> 't py \<Rightarrow> 't py \<Rightarrow> int list \<Rightarrow>
    't module_type \<Rightarrow> error + 't store" where
  "node_init h self c inputs_spec conds dims module_type =
     (case parse_inputs self inputs_spec of
        Inl e \<Rightarrow> Inl e
      | Inr v \<Rightarrow>
          (case input_shapes h (items v) of
             Inl e \<Rightarrow> Inl e
           | Inr (edges, in_shapes) \<Rightarrow>
               (case condition_shapes h (parse_conditions conds) of
                  Inl e \<Rightarrow> Inl e
                | Inr (cond_nodes, c_shapes) \<Rightarrow>
                    (case build_module c dims module_type cond_nodes c_shapes in_shapes of
                       Inl e \<Rightarrow> Inl e
                     | Inr (m, out_shapes) \<Rightarrow>
                         Inr (notify self 0 edges
                                (h(self := \<lparr>cls = c, inputs = edges, conditions = cond_nodes,
                                     outputs = [], input_dims = in_shapes,
                                     output_dims = out_shapes, module = m\<rparr>)))))))"



section \<open>topological\_order\<close>

text \<open>
  \<^verbatim>\<open>
  edges_out_to_in = {node_b: {node_a for node_a, out_idx in node_b.inputs}
                     for node_b in all_nodes + out_nodes}
  edges_in_to_out = defaultdict(set)
  for node_out, node_ins in edges_out_to_in.items():
      for node_in in node_ins:
          edges_in_to_out[node_in].add(node_out)
  \<close>
\<close>

definition build_edges_out_to_in :: "'t store \<Rightarrow> nat list \<Rightarrow> edges" where
  "build_edges_out_to_in h nodes =
     fold (\<lambda>node_b d. AList.update node_b (fold set_add (map fst (inputs (h node_b))) []) d)
       nodes []"

definition build_edges_in_to_out :: "edges \<Rightarrow> edges" where
  "build_edges_in_to_out edges_out_to_in =
     fold (\<lambda>(node_out, node_ins) d.
             fold (\<lambda>node_in d'. AList.update node_in (set_add node_out (defaultdict_get d' node_in)) d')
               node_ins d)
       edges_out_to_in []"

text \<open>
  The body of the inner loop, for one \<^verbatim>\<open>in_node\<close> of the copied list:
  \<^verbatim>\<open>
  edges_out_to_in[node].remove(in_node)
  edges_in_to_out[in_node].remove(node)
  if len(edges_in_to_out[in_node]) == 0:
      no_pending_edges.append(in_node)
  \<close>
  The state is (edges\_out\_to\_in, edges\_in\_to\_out, no\_pending\_edges).
\<close>

fun release :: "nat \<Rightarrow> nat list \<Rightarrow> edges \<times> edges \<times> nat list \<Rightarrow> error + edges \<times> edges \<times> nat list" where
  "release node [] st = Inr st"
| "release node (in_node # rest) (eoi, eio, q) =
     (case dict_get eoi node of
        Inl e \<Rightarrow> Inl e
      | Inr s \<Rightarrow>
          (case set_remove in_node s of
             Inl e \<Rightarrow> Inl e
           | Inr s' \<Rightarrow>
               (case set_remove node (defaultdict_get eio in_node) of
                  Inl e \<Rightarrow> Inl e
                | Inr t' \<Rightarrow>
                    release node rest
                      (AList.update node s' eoi, AList.update in_node t' eio,
                       if length t' = 0 then q @ [in_node] else q))))"

text \<open>
  \<^verbatim>\<open>
  while len(no_pending_edges) > 0:
      node = no_pending_edges.popleft()
      sorted_nodes.append(node)
      for in_node in list(edges_out_to_in[node]):
          ...
  \<close>
\<close>

function kahn :: "nat list \<Rightarrow> nat list \<Rightarrow> edges \<Rightarrow> edges \<Rightarrow> error + nat list \<times> edges \<times> edges" where
  "kahn [] sorted_nodes eoi eio = Inr (sorted_nodes, eoi, eio)"
| "kahn (node # q) sorted_nodes eoi eio =
     (case dict_get eoi node of
        Inl e \<Rightarrow> Inl e
      | Inr s \<Rightarrow>
          (case release node s (eoi, eio, q) of
             Inl e \<Rightarrow> Inl e
           | Inr (eoi', eio', q') \<Rightarrow> kahn q' (sorted_nodes @ [node]) eoi' eio'))"
  by pat_completeness auto

text \<open>
  The loop ends: every pass of the inner loop takes an element out of
  \<^verbatim>\<open>edges_out_to_in[node]\<close> and appends at most one node to the queue.
\<close>

definition edge_count :: "edges \<Rightarrow> nat" where
  "edge_count d = sum_list (map (\<lambda>(k, s). length s) d)"

lemma edge_count_update:
  "map_of d k = Some s \<Longrightarrow> edge_count (AList.update k s' d) + length s = edge_count d + length s'"
  by (induction d) (auto simp: edge_count_def)

lemma release_measure:
  "release node ps (eoi, eio, q) = Inr (eoi', eio', q') \<Longrightarrow>
     edge_count eoi' + length ps \<le> edge_count eoi \<and> length q' \<le> length q + length ps"
proof (induction ps arbitrary: eoi eio q)
  case Nil
  then show ?case by simp
next
  case (Cons in_node rest)
  from Cons.prems obtain s s' t' where
    s: "map_of eoi node = Some s" and
    s': "in_node \<in> set s" "s' = removeAll in_node s" and
    r: "release node rest (AList.update node s' eoi, AList.update in_node t' eio,
          if length t' = 0 then q @ [in_node] else q) = Inr (eoi', eio', q')"
    by (auto simp: dict_get_def set_remove_def split: option.splits sum.splits if_splits)
  have less: "length s' < length s"
    using s' by (simp add: length_removeAll_less)
  have "edge_count (AList.update node s' eoi) + length s = edge_count eoi + length s'"
    using s by (rule edge_count_update)
  with less have drop: "edge_count (AList.update node s' eoi) + 1 \<le> edge_count eoi"
    by arith
  from Cons.IH [OF r] have
    "edge_count eoi' + length rest \<le> edge_count (AList.update node s' eoi)"
    "length q' \<le> length (if length t' = 0 then q @ [in_node] else q) + length rest"
    by simp_all
  with drop show ?case by (auto split: if_splits)
qed

termination kahn
proof (relation "measure (\<lambda>(q, sorted_nodes, eoi, eio). 2 * edge_count eoi + length q)", goal_cases)
  case 1
  then show ?case by simp
next
  case (2 node q sorted_nodes eoi eio s st eoi' rest' eio' q')
  then have "release node s (eoi, eio, q) = Inr (eoi', eio', q')" by simp
  from release_measure [OF this] show ?case by simp
qed

text \<open>
  \<^verbatim>\<open>
  for in_node in in_nodes:
      assert in_node in sorted_nodes, f"Error in graph: Input node {in_node} is not connected to any output."
  \<close>
\<close>

fun check_connected :: "nat list \<Rightarrow> nat list \<Rightarrow> error + unit" where
  "check_connected [] sorted_nodes = Inr ()"
| "check_connected (in_node # rest) sorted_nodes =
     (if in_node \<in> set sorted_nodes then check_connected rest sorted_nodes
      else Inl (AssertionError (NotConnected in_node)))"

text \<open>
  \<^verbatim>\<open>
  def topological_order(all_nodes, in_nodes, out_nodes):
      ...
      sorted_nodes = []
      no_pending_edges = deque(out_nodes)
      while ...
      for in_node in in_nodes: assert ...
      if sum(map(len, edges_in_to_out.values())) == 0:
          return sorted_nodes[::-1]
      else:
          raise ValueError("Graph is cyclic.")
  \<close>
\<close>

definition topological_order :: "'t store \<Rightarrow> nat list \<Rightarrow> nat list \<Rightarrow> nat list \<Rightarrow> error + nat list" where
  "topological_order h all_nodes in_nodes out_nodes =
     (let edges_out_to_in = build_edges_out_to_in h (all_nodes @ out_nodes);
          edges_in_to_out = build_edges_in_to_out edges_out_to_in
      in case kahn out_nodes [] edges_out_to_in edges_in_to_out of
           Inl e \<Rightarrow> Inl e
         | Inr (sorted_nodes, eoi, eio) \<Rightarrow>
             (case check_connected in_nodes sorted_nodes of
                Inl e \<Rightarrow> Inl e
              | Inr _ \<Rightarrow>
                  if edge_count eio = 0 then Inr (rev sorted_nodes)
                  else Inl (ValueError GraphIsCyclic)))"

section \<open>ReversibleGraphNet.\_\_init\_\_\<close>

text \<open>
  The optional \<^verbatim>\<open>ind_in\<close> and \<^verbatim>\<open>ind_out\<close>: an integer or a list of integers.
\<close>

datatype ind = IndInt int | IndList "int list"

fun ind_list :: "ind \<Rightarrow> int list" where
  "ind_list (IndInt i) = [i]"
| "ind_list (IndList is) = is"

text \<open>\<^verbatim>\<open>[node_list[i] for i in ind]\<close> and \<^verbatim>\<open>[node.dims[0] for node in nodes]\<close>.\<close>

fun index_all :: "'a list \<Rightarrow> int list \<Rightarrow> error + 'a list" where
  "index_all xs [] = Inr []"
| "index_all xs (i # is) =
     (case py_index xs i of
        Inl e \<Rightarrow> Inl e
      | Inr x \<Rightarrow> (case index_all xs is of Inl e \<Rightarrow> Inl e | Inr ys \<Rightarrow> Inr (x # ys)))"

fun first_dims :: "('t node \<Rightarrow> int list list) \<Rightarrow> 't store \<Rightarrow> nat list \<Rightarrow> error + int list list" where
  "first_dims dims h [] = Inr []"
| "first_dims dims h (n # ns) =
     (case py_index (dims (h n)) 0 of
        Inl e \<Rightarrow> Inl e
      | Inr d \<Rightarrow> (case first_dims dims h ns of Inl e \<Rightarrow> Inl e | Inr ds \<Rightarrow> Inr (d # ds)))"

text \<open>
  The attributes of a graph net. \<^verbatim>\<open>module_list\<close> holds the nodes whose modules
  \<^verbatim>\<open>nn.ModuleList([n.module for n in node_list])\<close> registers, in that order: the
  order \<^verbatim>\<open>topological_order\<close> returned. \<^verbatim>\<open>forward\<close> reads \<^verbatim>\<open>self.node_list\<close>,
  an attribute that \<^verbatim>\<open>__init__\<close> does not assign; it is \<open>None\<close> while unassigned.
\<close>

record net =
  in_nodes :: "nat list"
  condition_nodes :: "nat list"
  out_nodes :: "nat list"
  force_tuple_output :: bool
  global_out_shapes :: "int list list"
  module_list :: "nat list"
  node_list :: "nat list option"

text \<open>
  \<^verbatim>\<open>
  if ind_in is not None:
      if isinstance(ind_in, int): ind_in = [ind_in]
      in_nodes = [node_list[i] for i in ind_in]
  else:
      in_nodes = [node_list[i] for i in range(len(node_list)) if isinstance(node_list[i], InputNode)]
  assert len(in_nodes) > 0, "No input nodes specified."
  ... (the same for ind_out and OutputNode)
  condition_nodes = [node_list[i] for i in range(len(node_list)) if isinstance(node_list[i], ConditionNode)]
  node_list = topological_order(in_nodes, node_list, out_nodes)
  global_in_shapes = [node.output_dims[0] for node in in_nodes]
  global_out_shapes = [node.input_dims[0] for node in out_nodes]
  global_cond_shapes = [node.input_dims[0] for node in condition_nodes]
  \<close>
  The constructor of the base class, which receives the input and condition shapes, is
  not part of this file and is taken not to raise.
\<close>

definition boundary_nodes :: "'t store \<Rightarrow> nat list \<Rightarrow> ind option \<Rightarrow> node_class \<Rightarrow> error + nat list" where
  "boundary_nodes h nodes ind c =
     (case ind of
        Some i \<Rightarrow> index_all nodes (ind_list i)
      | None \<Rightarrow> Inr (filter (\<lambda>n. cls (h n) = c) nodes))"

definition init :: "'t store \<Rightarrow> nat list \<Rightarrow> ind option \<Rightarrow> ind option \<Rightarrow> bool \<Rightarrow> error + net" where
  "init h nodes ind_in ind_out force =
     (case boundary_nodes h nodes ind_in InputNode of
        Inl e \<Rightarrow> Inl e
      | Inr ins \<Rightarrow>
          if \<not> length ins > 0 then Inl (AssertionError NoInputNodes)
          else
            (case boundary_nodes h nodes ind_out OutputNode of
               Inl e \<Rightarrow> Inl e
             | Inr outs \<Rightarrow>
                 if \<not> length outs > 0 then Inl (AssertionError NoOutputNodes)
                 else
                   (let conds = filter (\<lambda>n. cls (h n) = ConditionNode) nodes
                    in case topological_order h ins nodes outs of
                         Inl e \<Rightarrow> Inl e
                       | Inr sorted_list \<Rightarrow>
                           (case first_dims output_dims h ins of
                              Inl e \<Rightarrow> Inl e
                            | Inr global_in \<Rightarrow>
                                (case first_dims input_dims h outs of
                                   Inl e \<Rightarrow> Inl e
                                 | Inr global_out \<Rightarrow>
                                     (case first_dims input_dims h conds of
                                        Inl e \<Rightarrow> Inl e
                                      | Inr global_cond \<Rightarrow>
                                          Inr \<lparr>in_nodes = ins, condition_nodes = conds,
                                               out_nodes = outs, force_tuple_output = force,
                                               global_out_shapes = global_out,
                                               module_list = sorted_list,
                                               node_list = None\<rparr>))))))"

section \<open>ReversibleGraphNet.forward\<close>

text \<open>
  The edge-value table \<^verbatim>\<open>outs\<close> is a dictionary whose keys are pairs of an object
  and an integer. The object is a node or, in \<^verbatim>\<open>outs[self, out_idx]\<close>, the graph net
  itself, which is not a node.
\<close>

datatype obj = NodeObj nat | NetObj

type_synonym 't table = "obj \<times> int \<rightharpoonup> 't py"

text \<open>
  \<^verbatim>\<open>
  for tensor, start_node in zip(x_or_z, self.out_nodes if rev else self.in_nodes):
      outs[start_node, 0] = tensor
  for tensor, condition_node in zip(c, self.condition_nodes):
      outs[condition_node, 0] = tensor
  \<close>
\<close>

fun seed :: "'t table \<Rightarrow> ('t py \<times> nat) list \<Rightarrow> 't table" where
  "seed outs [] = outs"
| "seed outs ((tensor, start_node) # rest) = seed (outs((NodeObj start_node, 0) \<mapsto> tensor)) rest"

definition seed_outs :: "net \<Rightarrow> 't py list \<Rightarrow> 't py list \<Rightarrow> bool \<Rightarrow> 't table" where
  "seed_outs self x_or_z c rv =
     seed (seed Map.empty (zip x_or_z (if rv then out_nodes self else in_nodes self)))
       (zip c (condition_nodes self))"

text \<open>
  \<^verbatim>\<open>
  for prev_node, channel in (...): mod_in.append(outs[prev_node, channel])
  \<close>
  A key that is not in the table raises KeyError.
\<close>

fun gather :: "'t table \<Rightarrow> (obj \<times> int) list \<Rightarrow> error + 't py list" where
  "gather outs [] = Inr []"
| "gather outs (k # ks) =
     (case outs k of
        None \<Rightarrow> Inl KeyError
      | Some v \<Rightarrow> (case gather outs ks of Inl e \<Rightarrow> Inl e | Inr vs \<Rightarrow> Inr (v # vs)))"

text \<open>
  \<^verbatim>\<open>len(v)\<close>: the number of elements of a list or tuple, TypeError for a value without
  a length.
\<close>

definition py_len :: "'t py \<Rightarrow> error + nat" where
  "py_len v = (if is_seq v then Inr (length (items v)) else Inl TypeError)"

text \<open>
  \<^verbatim>\<open>
  for out_idx, out_value in enumerate(out):
      outs[self, out_idx] = out_value
  \<close>
  Here \<^verbatim>\<open>self\<close> is the graph net whose \<^verbatim>\<open>forward\<close> is running.
\<close>

fun write_outs :: "'t table \<Rightarrow> nat \<Rightarrow> 't py list \<Rightarrow> 't table" where
  "write_outs outs out_idx [] = outs"
| "write_outs outs out_idx (out_value # rest) =
     write_outs (outs((NetObj, int out_idx) \<mapsto> out_value)) (Suc out_idx) rest"

text \<open>
  \<^verbatim>\<open>jacobian = jacobian + mod_jac\<close>: \<^verbatim>\<open>jacobian\<close> is \<^verbatim>\<open>None\<close> or a tensor, and
  adding a tensor to \<^verbatim>\<open>None\<close> raises TypeError. The statement is reached only with a
  tensor \<^verbatim>\<open>mod_jac\<close>.
\<close>

fun add_jacobian :: "('t::plus) option \<Rightarrow> 't py \<Rightarrow> error + 't option" where
  "add_jacobian (Some a) (Tensor b) = Inr (Some (a + b))"
| "add_jacobian _ _ = Inl TypeError"

text \<open>
  The body of the loop over the nodes, for one \<^verbatim>\<open>node\<close>: gather the inputs and the
  conditions, call the module, check what it returned, write the outputs, add the
  Jacobian. The state is (\<^verbatim>\<open>outs\<close>, \<^verbatim>\<open>jacobian\<close>).
  \<^verbatim>\<open>
  if torch.is_tensor(mod_out): raise ValueError(...)
  if len(mod_out) != 2: raise ValueError(...)
  out, mod_jac = mod_out
  if torch.is_tensor(out): raise ValueError(...)
  if len(out) != len(node.inputs if rev else node.outputs): raise ValueError(...)
  if not torch.is_tensor(mod_jac):
      if jac: raise ValueError(f"The node {node}'s module returned a non-tensor as Jacobian.")
      elif not jac and mod_jac is not None:
          raise ValueError(f"The node {node}'s module returned neither None nor a Jacobian.")
  \<close>
\<close>

definition check_jacobian :: "nat \<Rightarrow> bool \<Rightarrow> 't py \<Rightarrow> error + unit" where
  "check_jacobian node jac mod_jac =
     (if \<not> is_tensor mod_jac then
        (if jac then Inl (ValueError (NonTensorJacobian node))
         else if \<not> jac \<and> mod_jac \<noteq> NoneV then Inl (ValueError (NeitherNoneNorJacobian node))
         else Inr ())
      else Inr ())"

definition check_output :: "nat \<Rightarrow> nat \<Rightarrow> 't py \<Rightarrow> error + 't py list \<times> 't py" where
  "check_output node expected mod_out =
     (if is_tensor mod_out then Inl (ValueError (ReturnedTensorOnly node))
      else
        (case py_len mod_out of
           Inl e \<Rightarrow> Inl e
         | Inr l \<Rightarrow>
             if l \<noteq> 2 then Inl (ValueError (ReturnedTupleOfLength node l))
             else
               (let out = items mod_out ! 0; mod_jac = items mod_out ! 1
                in if is_tensor out then Inl (ValueError (ReturnsTensor node))
                   else
                     (case py_len out of
                        Inl e \<Rightarrow> Inl e
                      | Inr k \<Rightarrow>
                          if k \<noteq> expected then Inl (ValueError (ReturnedOutputs node k expected))
                          else Inr (items out, mod_jac)))))"

definition visit :: "('t::plus) store \<Rightarrow> bool \<Rightarrow> bool \<Rightarrow> nat \<Rightarrow> 't table \<times> 't option \<Rightarrow>
    error + 't table \<times> 't option" where
  "visit h rv jac node st =
     (let outs = fst st; jacobian = snd st;
          has_condition = (length (conditions (h node)) > 0)
      in case gather outs (map (\<lambda>(prev_node, channel). (NodeObj prev_node, channel))
                (if rv then outputs (h node) else inputs (h node))) of
           Inl e \<Rightarrow> Inl e
         | Inr mod_in \<Rightarrow>
             (case gather outs (map (\<lambda>cond_node. (NodeObj cond_node, 0)) (conditions (h node))) of
                Inl e \<Rightarrow> Inl e
              | Inr mod_c \<Rightarrow>
                  (case module (h node) of
                     None \<Rightarrow> Inl TypeError
                   | Some m \<Rightarrow>
                       (case check_output node
                               (length (if rv then inputs (h node) else outputs (h node)))
                               (m mod_in (if has_condition then Some mod_c else None) rv jac) of
                          Inl e \<Rightarrow> Inl e
                        | Inr (out, mod_jac) \<Rightarrow>
                            (case check_jacobian node jac mod_jac of
                               Inl e \<Rightarrow> Inl e
                             | Inr _ \<Rightarrow>
                                 if jac then
                                   (case add_jacobian jacobian mod_jac of
                                      Inl e \<Rightarrow> Inl e
                                    | Inr jacobian' \<Rightarrow> Inr (write_outs outs 0 out, jacobian'))
                                 else Inr (write_outs outs 0 out, jacobian))))))"

text \<open>\<^verbatim>\<open>for node in self.node_list[::-1 if rev else 1]: ...\<close>\<close>

fun visit_all :: "('t::plus) store \<Rightarrow> bool \<Rightarrow> bool \<Rightarrow> nat list \<Rightarrow> 't table \<times> 't option \<Rightarrow>
    error + 't table \<times> 't option" where
  "visit_all h rv jac [] st = Inr st"
| "visit_all h rv jac (node # rest) st =
     (case visit h rv jac node st of
        Inl e \<Rightarrow> Inl e
      | Inr st' \<Rightarrow> visit_all h rv jac rest st')"

text \<open>
  What \<^verbatim>\<open>forward\<close> returns: the table and the Jacobian, or one value and the
  Jacobian, or a tuple of values and the Jacobian.
  \<^verbatim>\<open>
  if intermediate_outputs:
      return outs, jacobian
  else:
      out_list = [outs[(out_node, 0)] for out_node in self.out_nodes]
      if len(out_list) == 1 and not self.force_tuple_output:
          return out_list[0], jacobian
      else:
          return tuple(out_list), jacobian
  \<close>
\<close>

datatype 't result =
    Intermediate "'t table" "'t option"
  | Single "'t py" "'t option"
  | Multiple "'t py list" "'t option"

definition forward :: "('t::plus) store \<Rightarrow> net \<Rightarrow> 't py list \<Rightarrow> 't py list \<Rightarrow> bool \<Rightarrow> bool \<Rightarrow> bool \<Rightarrow>
    error + 't result" where
  "forward h self x_or_z c rv jac intermediate_outputs =
     (let jacobian = None;
          outs = seed_outs self x_or_z c rv
      in case node_list self of
           None \<Rightarrow> Inl (AttributeError ''node_list'')
         | Some nodes \<Rightarrow>
             (case visit_all h rv jac (if rv then rev nodes else nodes) (outs, jacobian) of
                Inl e \<Rightarrow> Inl e
              | Inr (outs', jacobian') \<Rightarrow>
                  if intermediate_outputs then Inr (Intermediate outs' jacobian')
                  else
                    (case gather outs' (map (\<lambda>out_node. (NodeObj out_node, 0)) (out_nodes self)) of
                       Inl e \<Rightarrow> Inl e
                     | Inr out_list \<Rightarrow>
                         if length out_list = 1 \<and> \<not> force_tuple_output self
                         then Inr (Single (out_list ! 0) jacobian')
                         else Inr (Multiple out_list jacobian'))))"

section \<open>Cycles and example graphs\<close>

text \<open>The key \<^verbatim>\<open>(node, 0)\<close> under which a boundary node is seeded.\<close>

definition slot0 :: "nat \<Rightarrow> obj \<times> int" where
  "slot0 n = (NodeObj n, 0)"

text \<open>
  A dependency cycle: a non-empty list of nodes in which every node is an input
  producer of the next one, and the last one of the first.
\<close>

definition dependency_cycle :: "'t store \<Rightarrow> nat list \<Rightarrow> bool" where
  "dependency_cycle h ns =
     (ns \<noteq> [] \<and> list_all (\<lambda>(p, c). p \<in> fst ` set (inputs (h c))) (zip ns (tl ns @ [hd ns])))"

text \<open>
  The invariant of the traversal on a cycle \<open>S\<close>: every node of \<open>S\<close> still has a
  consumer in \<open>S\<close> recorded in \<^verbatim>\<open>edges_in_to_out\<close>.
\<close>

definition pending :: "nat set \<Rightarrow> edges \<Rightarrow> bool" where
  "pending S eio = (\<forall>p \<in> S. \<exists>c \<in> S. c \<in> set (defaultdict_get eio p))"

text \<open>The tensors that a call of \<^verbatim>\<open>forward\<close> returns outside the table.\<close>

fun returned :: "'t result \<Rightarrow> 't py list" where
  "returned (Intermediate outs jacobian) = []"
| "returned (Single v jacobian) = [v]"
| "returned (Multiple vs jacobian) = vs"

text \<open>
  Two modules over integer tensors. The first doubles its inputs (halves them in
  reverse) and returns a Jacobian only when asked for one; the second returns its
  inputs and always a tensor as Jacobian.
\<close>

definition scale_module :: "int module" where
  "scale_module mod_in c rv jac =
     TupleV [TupleV (map (\<lambda>v. case v of Tensor a \<Rightarrow> Tensor (if rv then a div 2 else 2 * a) | _ \<Rightarrow> v) mod_in),
             if jac then Tensor (if rv then - 1 else 1) else NoneV]"

definition scale_type :: "int module_type" where
  "scale_type in_shapes c_shapes = Inr (scale_module, in_shapes)"

definition eager_module :: "int module" where
  "eager_module mod_in c rv jac = TupleV [TupleV mod_in, Tensor 0]"

text \<open>
  Nodes as their constructors leave them: \<^verbatim>\<open>InputNode(2)\<close>, \<^verbatim>\<open>OutputNode(ins)\<close>
  and \<^verbatim>\<open>Node(ins, m, {})\<close>, with the \<^verbatim>\<open>outputs\<close> that the consumers constructed
  later have appended.
\<close>

definition input_node :: "(nat \<times> int) list \<Rightarrow> int node" where
  "input_node outs = \<lparr>cls = InputNode, inputs = [], conditions = [], outputs = outs,
     input_dims = [], output_dims = [[2]], module = None\<rparr>"

definition output_node :: "(nat \<times> int) list \<Rightarrow> int node" where
  "output_node ins = \<lparr>cls = OutputNode, inputs = ins, conditions = [], outputs = [],
     input_dims = map (\<lambda>_. [2]) ins, output_dims = [], module = None\<rparr>"

definition plain_node :: "(nat \<times> int) list \<Rightarrow> (nat \<times> int) list \<Rightarrow> int module \<Rightarrow> int node" where
  "plain_node ins outs m = \<lparr>cls = Node, inputs = ins, conditions = [], outputs = outs,
     input_dims = map (\<lambda>_. [2]) ins, output_dims = map (\<lambda>_. [2]) ins, module = Some m\<rparr>"

text \<open>
  The chain input 0 \<open>\<rightarrow>\<close> node 1 \<open>\<rightarrow>\<close> output 2; every other identity is an input
  node that nothing consumes.
\<close>

definition chain :: "int module \<Rightarrow> int store" where
  "chain m = (\<lambda>_. input_node [])
     (0 := input_node [(1, 0)],
      1 := plain_node [(0, 0)] [(2, 0)] m,
      2 := output_node [(1, 0)])"

text \<open>
  The chain with a second node 3 between node 1 and itself: 1 consumes 3 and 3
  consumes 1.
\<close>

definition cyclic :: "int store" where
  "cyclic = (\<lambda>_. input_node [])
     (0 := input_node [(1, 0)],
      1 := plain_node [(0, 0), (3, 0)] [(3, 0), (2, 0)] scale_module,
      2 := output_node [(1, 0)],
      3 := plain_node [(1, 0)] [(1, 1)] scale_module)"

text \<open>
  Input 0 feeds output 2 directly, and the nodes 1 and 3 consume each other apart from
  them.
\<close>

definition detached_cycle :: "int store" where
  "detached_cycle = (\<lambda>_. input_node [])
     (0 := input_node [(2, 0)],
      1 := plain_node [(3, 0)] [(3, 0)] scale_module,
      2 := output_node [(0, 0)],
      3 := plain_node [(1, 0)] [(1, 0)] scale_module)"

text \<open>
  A graph net over the chain whose \<^verbatim>\<open>node_list\<close> attribute has been assigned the one
  node that has a module.
\<close>

definition chain_net :: net where
  "chain_net = \<lparr>in_nodes = [0], condition_nodes = [], out_nodes = [2], force_tuple_output = False,
        global_out_shapes = [[2]], module_list = [0, 1, 2], node_list = Some [1]\<rparr>"

lemmas example_defs = forward_def seed_outs_def chain_net_def chain_def visit_def check_output_def
  py_len_def check_jacobian_def scale_module_def eager_module_def plain_node_def input_node_def
  output_node_def

section \<open>Canonical inputs (C8)\<close>





lemma parse_inputs_node:
  "is_node x \<Longrightarrow> parse_inputs self x = Inr (ListV [TupleV [x, IntV 0]])"
  by (cases x) (simp_all add: parse_inputs_def)









text \<open>
  The example graphs are what the constructors build: the chain results from
  \<^verbatim>\<open>a = InputNode(2)\<close>, \<^verbatim>\<open>b = Node(a, M, {})\<close> and \<^verbatim>\<open>c = OutputNode(b)\<close>.
\<close>

lemma chain_constructed:
  "(case node_init (\<lambda>_. input_node []) 0 InputNode (ListV []) NoneV [2] scale_type of
      Inl e \<Rightarrow> False
    | Inr h0 \<Rightarrow>
        (case node_init h0 1 Node (NodeV 0) NoneV [] scale_type of
           Inl e \<Rightarrow> False
         | Inr h1 \<Rightarrow>
             node_init h1 2 OutputNode (NodeV 1) NoneV [] scale_type = Inr (chain scale_module)))"
  by (simp add: node_init_def parse_inputs_def unpack_pair_def edge_shape_def py_index_def
      parse_conditions_def build_module_def scale_type_def chain_def plain_node_def
      input_node_def output_node_def fun_eq_iff)

section \<open>Output-slot attributes (C9)\<close>

lemma of_char_digit_char: "d < 10 \<Longrightarrow> (of_char (digit_char d) :: nat) = 48 + d"
  by (simp add: digit_char_def)

lemma is_digit_digit_char: "d < 10 \<Longrightarrow> is_digit (digit_char d)"
  by (simp add: is_digit_def of_char_digit_char)

lemma digit_val_digit_char: "d < 10 \<Longrightarrow> digit_val (digit_char d) = d"
  by (simp add: digit_val_def of_char_digit_char)

lemma str_nat_digits: "list_all is_digit (str_nat n) \<and> str_nat n \<noteq> []"
proof (induction n rule: str_nat.induct)
  case (1 n)
  show ?case
  proof (cases "n < 10")
    case True
    then show ?thesis by (simp add: str_nat.simps [of n] is_digit_digit_char)
  next
    case False
    with 1 show ?thesis by (simp add: str_nat.simps [of n] is_digit_digit_char)
  qed
qed

lemma digits_value_append:
  "list_all is_digit xs \<Longrightarrow>
     digits_value prev acc (xs @ ys) =
       digits_value (prev \<or> xs \<noteq> []) (fold (\<lambda>c a. 10 * a + digit_val c) xs acc) ys"
  by (induction xs arbitrary: prev acc) auto

lemma fold_str_nat: "fold (\<lambda>c a. 10 * a + digit_val c) (str_nat n) 0 = n"
proof (induction n rule: str_nat.induct)
  case (1 n)
  show ?case
  proof (cases "n < 10")
    case True
    then show ?thesis by (simp add: str_nat.simps [of n] digit_val_digit_char)
  next
    case False
    with 1 show ?thesis by (simp add: str_nat.simps [of n] digit_val_digit_char)
  qed
qed

lemma digits_value_str_nat: "digits_value False 0 (str_nat n) = Some n"
  using digits_value_append [of "str_nat n" False 0 "[]"] str_nat_digits [of n]
  by (simp add: fold_str_nat)

lemma digit_not_space: "is_digit c \<Longrightarrow> \<not> is_space c"
  by (auto simp: is_digit_def is_space_def)

lemma strip_digits: "list_all is_digit xs \<Longrightarrow> strip xs = xs"
proof -
  assume d: "list_all is_digit xs"
  then have "\<forall>c \<in> set xs. \<not> is_space c"
    by (auto simp: list_all_iff digit_not_space)
  then have "dropWhile is_space xs = xs" "dropWhile is_space (rev xs) = rev xs"
    by (auto simp: dropWhile_eq_self_iff hd_rev)
  then show ?thesis by (simp add: strip_def)
qed

lemma digit_not_sign: "is_digit c \<Longrightarrow> c \<noteq> CHR ''-'' \<and> c \<noteq> CHR ''+''"
  by (auto simp: is_digit_def)

lemma py_int_str_nat: "py_int (str_nat n) = Inr (int n)"
proof -
  obtain c cs where s: "str_nat n = c # cs"
    using str_nat_digits [of n] by (cases "str_nat n") auto
  with str_nat_digits [of n] have "is_digit c" by simp
  then have "c \<noteq> CHR ''-''" "c \<noteq> CHR ''+''" using digit_not_sign by blast+
  moreover have "strip (str_nat n) = c # cs"
    using strip_digits str_nat_digits s by metis
  moreover have "digits_value False 0 (c # cs) = Some n"
    using digits_value_str_nat [of n] s by simp
  ultimately show ?thesis
    by (simp add: py_int_def)
qed

lemma str_nat_inj: "str_nat i = str_nat k \<Longrightarrow> i = k"
proof -
  assume "str_nat i = str_nat k"
  then have "py_int (str_nat i) = py_int (str_nat k)" by simp
  then show "i = k" by (simp add: py_int_str_nat)
qed

lemma fold_out_attrs:
  "fold (\<lambda>i d. d(''out'' @ str_nat i \<mapsto> f i)) is d0 (''out'' @ str_nat k) =
     (if k \<in> set is then Some (f k) else d0 (''out'' @ str_nat k))"
  by (induction "is" arbitrary: d0) (auto dest: str_nat_inj)

lemma out_attrs_lookup:
  "out_attrs self (''out'' @ str_nat k) =
     (if k < 256 then Some (TupleV [NodeV self, IntV (int k)]) else None)"
  unfolding out_attrs_def fold_out_attrs by simp

text \<open>
  C9. For every node and every natural number \<open>k\<close>, the attribute \<^verbatim>\<open>out<k>\<close>, named
  by the decimal digits of \<open>k\<close>, is the pair (node, \<open>k\<close>): an instance attribute for
  \<open>k < 256\<close>, the result of \<^verbatim>\<open>__getattr__\<close> beyond. The access reads nothing of the
  node but its identity, so the number of output slots the node has does not bound
  \<open>k\<close>.
\<close>

theorem out_attr_edge_ref:
  "out_attr self (''out'' @ str_nat k) = Inr (TupleV [NodeV self, IntV (int k)])"
proof (cases "k < 256")
  case True
  then show ?thesis
    unfolding out_attr_def out_attrs_lookup by simp
next
  case False
  have "getattr_hook self (''out'' @ str_nat k) = Inr (TupleV [NodeV self, IntV (int k)])"
    by (simp add: getattr_hook_def py_int_str_nat)
  with False show ?thesis
    unfolding out_attr_def out_attrs_lookup by simp
qed

section \<open>Seeding the edge-value table (C10)\<close>

lemma seed_map_of:
  "seed outs kvs = outs ++ map_of (rev (map (\<lambda>(tensor, n). (slot0 n, tensor)) kvs))"
proof (induction kvs arbitrary: outs)
  case Nil
  show ?case by simp
next
  case (Cons kv rest)
  obtain tensor n where kv: "kv = (tensor, n)" by (cases kv)
  let ?m = "map_of (rev (map (\<lambda>(tensor, n). (slot0 n, tensor)) rest))"
  have "seed outs (kv # rest) = seed (outs(slot0 n \<mapsto> tensor)) rest"
    by (simp only: kv seed.simps slot0_def)
  also have "\<dots> = outs(slot0 n \<mapsto> tensor) ++ ?m"
    by (rule Cons.IH)
  also have "\<dots> = outs ++ ([slot0 n \<mapsto> tensor] ++ ?m)"
    by (rule ext) (simp add: map_add_def split: option.split)
  also have "[slot0 n \<mapsto> tensor] ++ ?m = map_of (rev (map (\<lambda>(tensor, n). (slot0 n, tensor)) (kv # rest)))"
    by (simp add: kv)
  finally show ?case .
qed

lemma zip_swap_keys:
  "map (\<lambda>(tensor, n). (slot0 n, tensor)) (zip ts ns) = zip (map slot0 ns) ts"
  by (induction ts ns rule: list_induct2') simp_all

lemma seed_outs_map_of:
  "seed_outs self x_or_z c rv =
     map_of (rev (zip (map slot0 (if rv then out_nodes self else in_nodes self)) x_or_z))
       ++ map_of (rev (zip (map slot0 (condition_nodes self)) c))"
  by (simp add: seed_outs_def seed_map_of zip_swap_keys)

lemma zip_take_left: "zip ks (take (length ks) vs) = zip ks vs"
  by (induction ks vs rule: list_induct2') simp_all

lemma dom_zip: "dom (map_of (rev (zip ks vs))) = set (take (length vs) ks)"
proof -
  have "dom (map_of (rev (zip ks vs))) = fst ` set (zip ks vs)"
    by (simp add: dom_map_of_conv_image_fst)
  also have "\<dots> = set (map fst (zip ks vs))" by simp
  also have "\<dots> = set (take (length vs) ks)"
    by (cases "length ks \<le> length vs") (simp_all add: map_fst_zip_take min_def)
  finally show ?thesis .
qed

text \<open>
  C10. Seeding has no error branch and checks no length. The table it builds is the
  one built from the tensors cut to the number of boundary nodes (surplus tensors are
  ignored); its entries are those of the two zips, tensor by tensor; its keys are the
  first \<open>length x_or_z\<close> start nodes and the first \<open>length c\<close> condition nodes, so a
  boundary node beyond them is left unseeded; and with no node to visit the call
  returns that table, whatever the lengths are.
\<close>

theorem seed_outs_matched_prefix:
  "seed_outs self x_or_z c rv =
     seed_outs self (take (length (if rv then out_nodes self else in_nodes self)) x_or_z)
       (take (length (condition_nodes self)) c) rv \<and>
   seed_outs self x_or_z c rv =
     map_of (rev (zip (map slot0 (if rv then out_nodes self else in_nodes self)) x_or_z))
       ++ map_of (rev (zip (map slot0 (condition_nodes self)) c)) \<and>
   dom (seed_outs self x_or_z c rv) =
     slot0 ` (set (take (length x_or_z) (if rv then out_nodes self else in_nodes self))
            \<union> set (take (length c) (condition_nodes self))) \<and>
   forward h (self\<lparr>node_list := Some []\<rparr>) x_or_z c rv jac True =
     Inr (Intermediate (seed_outs self x_or_z c rv) None)"
proof (intro conjI)
  show "seed_outs self x_or_z c rv =
     seed_outs self (take (length (if rv then out_nodes self else in_nodes self)) x_or_z)
       (take (length (condition_nodes self)) c) rv"
    using zip_take_left [of "map slot0 (out_nodes self)" x_or_z]
      zip_take_left [of "map slot0 (in_nodes self)" x_or_z]
      zip_take_left [of "map slot0 (condition_nodes self)" c]
    by (simp add: seed_outs_map_of)
next
  show "seed_outs self x_or_z c rv =
     map_of (rev (zip (map slot0 (if rv then out_nodes self else in_nodes self)) x_or_z))
       ++ map_of (rev (zip (map slot0 (condition_nodes self)) c))"
    by (rule seed_outs_map_of)
next
  show "dom (seed_outs self x_or_z c rv) =
     slot0 ` (set (take (length x_or_z) (if rv then out_nodes self else in_nodes self))
            \<union> set (take (length c) (condition_nodes self)))"
    unfolding seed_outs_map_of dom_map_add dom_zip
    by (auto simp: take_map)
next
  show "forward h (self\<lparr>node_list := Some []\<rparr>) x_or_z c rv jac True =
     Inr (Intermediate (seed_outs self x_or_z c rv) None)"
    by (simp add: forward_def seed_outs_def)
qed

section \<open>Graph assembly on the chain (C1, C7)\<close>

text \<open>
  C1. \<^verbatim>\<open>__init__\<close> calls \<^verbatim>\<open>topological_order(in_nodes, node_list, out_nodes)\<close>, while
  the parameters are \<^verbatim>\<open>(all_nodes, in_nodes, out_nodes)\<close>: the dependency map is built
  over the input and output nodes only, here the nodes 0 and 2, and not over every node.
  The traversal then reaches node 1, which has no entry, and the assembly of the chain
  input \<open>\<rightarrow>\<close> node \<open>\<rightarrow>\<close> output raises KeyError. With the arguments in the order of the
  parameters the same graph gets the order 0, 1, 2.
\<close>

theorem init_chain_key_error:
  "build_edges_out_to_in (chain scale_module) ([0] @ [2]) = [(0, []), (2, [1])] \<and>
   init (chain scale_module) [0, 1, 2] None None False = Inl KeyError \<and>
   topological_order (chain scale_module) [0, 1, 2] [0] [2] = Inr [0, 1, 2]"
  by code_simp

text \<open>
  C7. The input node 3 is connected to no output. The assembly of the nodes 0, 3, 1, 2
  does not report it: it raises KeyError at node 1, for the reason given under C1.
  \<^verbatim>\<open>topological_order\<close> called with the arguments in the order of its parameters
  raises the assertion error that names node 3.
\<close>

theorem init_unconnected_input_key_error:
  "init (chain scale_module) [0, 3, 1, 2] None None False = Inl KeyError \<and>
   topological_order (chain scale_module) [0, 3, 1, 2] [0, 3] [2]
     = Inl (AssertionError (NotConnected 3))"
  by code_simp

section \<open>Execution on the chain (C2, C3, C4)\<close>

text \<open>
  C2. Forward, without Jacobian, with the intermediate values returned: the module of
  node 1 produces the tensor 10 from the seeded 5. It is stored under the key
  (graph net, 0); there is no entry (node 1, 0) for a consumer of node 1 to read, and
  the same call without intermediate values raises KeyError when it reads the entry of
  the output node.
\<close>

theorem forward_writes_under_net_key:
  "(case forward (chain scale_module) chain_net [Tensor 5] [] False False True of
      Inr (Intermediate outs jacobian) \<Rightarrow>
        outs (NodeObj 0, 0) = Some (Tensor 5) \<and> outs (NodeObj 1, 0) = None \<and>
        outs (NetObj, 0) = Some (Tensor 10) \<and> jacobian = None
    | _ \<Rightarrow> False) \<and>
   forward (chain scale_module) chain_net [Tensor 5] [] False False False = Inl KeyError"
  by (simp add: example_defs)

text \<open>
  C3. Backward, the call is given the tensor 10 for the output node 2. It returns that
  very tensor, the entry of the output node, and not a tensor of the input node 0: the
  returned list is read from \<^verbatim>\<open>self.out_nodes\<close> in both directions.
\<close>

theorem forward_backward_returns_output_seed:
  "forward (chain scale_module) chain_net [Tensor 10] [] True False False
     = Inr (Single (Tensor 10) None)"
  by (simp add: example_defs)

text \<open>
  C4. With Jacobian tracking the accumulator starts as \<^verbatim>\<open>None\<close>, and adding the tensor
  that the module of node 1 returned raises TypeError: no sum is returned.
\<close>

theorem forward_jacobian_type_error:
  "forward (chain scale_module) chain_net [Tensor 5] [] False True True = Inl TypeError"
  by (simp add: example_defs)

section \<open>The Jacobian contract (C5)\<close>

lemma add_jacobian_error: "add_jacobian jacobian v = Inl e \<Longrightarrow> e = TypeError"
  by (cases jacobian; cases v) auto

text \<open>
  C5, as amended. For a visited node whose inputs were gathered and whose module
  returned a well-formed pair, the error that names the node is raised exactly when
  tracking is enabled and the returned Jacobian is not a tensor, or tracking is disabled
  and the returned Jacobian is neither \<^verbatim>\<open>None\<close> nor a tensor. A tensor returned while
  tracking is disabled is accepted and ignored.
\<close>

theorem visit_jacobian_contract:
  assumes "gather outs (map (\<lambda>(prev_node, channel). (NodeObj prev_node, channel))
             (if rv then outputs (h node) else inputs (h node))) = Inr mod_in"
    and "gather outs (map (\<lambda>cond_node. (NodeObj cond_node, 0)) (conditions (h node))) = Inr mod_c"
    and "module (h node) = Some m"
    and "check_output node (length (if rv then inputs (h node) else outputs (h node)))
           (m mod_in (if length (conditions (h node)) > 0 then Some mod_c else None) rv jac)
         = Inr (out, mod_jac)"
  shows "((visit h rv jac node (outs, jacobian) = Inl (ValueError (NonTensorJacobian node)))
            = (jac \<and> \<not> is_tensor mod_jac)) \<and>
         ((visit h rv jac node (outs, jacobian) = Inl (ValueError (NeitherNoneNorJacobian node)))
            = (\<not> jac \<and> \<not> is_tensor mod_jac \<and> mod_jac \<noteq> NoneV)) \<and>
         (\<not> jac \<and> is_tensor mod_jac \<longrightarrow>
            visit h rv jac node (outs, jacobian) = Inr (write_outs outs 0 out, jacobian))"
proof (cases jac)
  case True
  show ?thesis
  proof (cases "is_tensor mod_jac")
    case t: True
    have "visit h rv jac node (outs, jacobian) \<noteq> Inl (ValueError e)" for e
      using assms True t add_jacobian_error [of jacobian mod_jac]
      by (auto simp: visit_def check_jacobian_def split: sum.splits)
    with True t show ?thesis by simp
  next
    case False
    with assms True show ?thesis
      by (simp add: visit_def check_jacobian_def)
  qed
next
  case False
  with assms show ?thesis
    by (simp add: visit_def check_jacobian_def)
qed

theorem visit_jacobian_contract_witness:
  "visit (chain eager_module) False False 1 ([(NodeObj 0, 0) \<mapsto> Tensor 5], None)
     = Inr (write_outs [(NodeObj 0, 0) \<mapsto> Tensor 5] 0 [Tensor 5], None) \<and>
   visit (chain eager_module) False False 1 ([(NodeObj 0, 0) \<mapsto> Tensor 5], None)
     \<noteq> Inl (ValueError (NeitherNoneNorJacobian 1))"
proof -
  have "gather [(NodeObj 0, 0) \<mapsto> Tensor (5::int)]
          (map (\<lambda>(prev_node, channel). (NodeObj prev_node, channel))
             (if False then outputs (chain eager_module 1) else inputs (chain eager_module 1)))
        = Inr [Tensor 5]"
    by (simp add: chain_def plain_node_def)
  moreover have "gather [(NodeObj 0, 0) \<mapsto> Tensor (5::int)]
          (map (\<lambda>cond_node. (NodeObj cond_node, 0)) (conditions (chain eager_module 1))) = Inr []"
    by (simp add: chain_def plain_node_def)
  moreover have "module (chain eager_module 1) = Some eager_module"
    by (simp add: chain_def plain_node_def)
  moreover have "check_output 1
          (length (if False then inputs (chain eager_module 1) else outputs (chain eager_module 1)))
          (eager_module [Tensor 5]
             (if length (conditions (chain eager_module 1)) > 0 then Some [] else None) False False)
        = Inr ([Tensor 5], Tensor 0)"
    by (simp add: chain_def plain_node_def check_output_def py_len_def eager_module_def)
  ultimately show ?thesis
    using visit_jacobian_contract [of "[(NodeObj 0, 0) \<mapsto> Tensor 5]" False "chain eager_module" 1
        "[Tensor 5]" "[]" eager_module False "[Tensor 5]" "Tensor 0" None]
    by simp
qed

text \<open>
  The claim as written fails: the module of node 1 returns a tensor as Jacobian while
  tracking is disabled, and the call raises nothing; it returns the table and no
  Jacobian.
\<close>

theorem forward_tensor_jacobian_untracked_counterexample:
  "(case forward (chain eager_module) chain_net [Tensor 5] [] False False True of
      Inr (Intermediate outs jacobian) \<Rightarrow> outs (NetObj, 0) = Some (Tensor 5) \<and> jacobian = None
    | _ \<Rightarrow> False)"
  by (simp add: example_defs)

section \<open>Cycles (C6)\<close>

lemma defaultdict_get_update:
  "defaultdict_get (AList.update k v d) p = (if p = k then v else defaultdict_get d p)"
  by (simp add: defaultdict_get_def update_conv')

lemma set_fold_set_add: "set (fold set_add xs s) = set xs \<union> set s"
  by (induction xs arbitrary: s) (auto simp: set_add_def)

lemma map_of_fold_update:
  "map_of (fold (\<lambda>k d. AList.update k (f k) d) ks d) n =
     (if n \<in> set ks then Some (f n) else map_of d n)"
  by (induction ks arbitrary: d) (auto simp: update_conv')

lemma build_edges_out_to_in_lookup:
  "n \<in> set nodes \<Longrightarrow>
     map_of (build_edges_out_to_in h nodes) n = Some (fold set_add (map fst (inputs (h n))) [])"
  unfolding build_edges_out_to_in_def by (simp add: map_of_fold_update)

lemma mirror_inner:
  "set (defaultdict_get
          (fold (\<lambda>node_in d'. AList.update node_in (set_add c (defaultdict_get d' node_in)) d') s d) p)
     = set (defaultdict_get d p) \<union> (if p \<in> set s then {c} else {})"
  by (induction s arbitrary: d) (auto simp: defaultdict_get_update set_add_def)

lemma mirror_outer:
  "set (defaultdict_get
          (fold (\<lambda>(node_out, node_ins) d.
                   fold (\<lambda>node_in d'. AList.update node_in (set_add node_out (defaultdict_get d' node_in)) d')
                     node_ins d) es d) p)
     = set (defaultdict_get d p) \<union> {c. \<exists>s. (c, s) \<in> set es \<and> p \<in> set s}"
proof (induction es arbitrary: d)
  case Nil
  show ?case by simp
next
  case (Cons e es)
  obtain c s where e: "e = (c, s)" by (cases e)
  show ?case
    unfolding e by (simp add: Cons.IH mirror_inner) blast
qed

lemma build_edges_in_to_out_member:
  "map_of es c = Some s \<Longrightarrow> p \<in> set s \<Longrightarrow> c \<in> set (defaultdict_get (build_edges_in_to_out es) p)"
  unfolding build_edges_in_to_out_def mirror_outer
  by (auto dest: map_of_SomeD)

lemma cycle_has_consumer:
  assumes "dependency_cycle h ns" and "p \<in> set ns"
  shows "\<exists>c \<in> set ns. p \<in> fst ` set (inputs (h c))"
proof -
  from assms(1) have ne: "ns \<noteq> []"
    and all: "\<forall>(p, c) \<in> set (zip ns (tl ns @ [hd ns])). p \<in> fst ` set (inputs (h c))"
    by (auto simp: dependency_cycle_def list_all_iff)
  have len: "length (tl ns @ [hd ns]) = length ns" using ne by simp
  from assms(2) obtain i where i: "i < length ns" "ns ! i = p"
    by (auto simp: in_set_conv_nth)
  let ?c = "(tl ns @ [hd ns]) ! i"
  have "(p, ?c) \<in> set (zip ns (tl ns @ [hd ns]))"
    using i len by (auto simp: in_set_zip)
  with all have "p \<in> fst ` set (inputs (h ?c))" by blast
  moreover have "?c \<in> set (tl ns @ [hd ns])"
    using i len by (metis nth_mem)
  then have "?c \<in> set ns"
    using ne by (auto dest: list.set_sel(2))
  ultimately show ?thesis by blast
qed

lemma pending_initial:
  assumes "dependency_cycle h ns" and "set ns \<subseteq> set nodes"
  shows "pending (set ns) (build_edges_in_to_out (build_edges_out_to_in h nodes))"
  unfolding pending_def
proof
  fix p assume "p \<in> set ns"
  from cycle_has_consumer [OF assms(1) this] obtain c where
    c: "c \<in> set ns" "p \<in> fst ` set (inputs (h c))" by blast
  with assms(2) have "map_of (build_edges_out_to_in h nodes) c
      = Some (fold set_add (map fst (inputs (h c))) [])"
    by (auto intro: build_edges_out_to_in_lookup)
  moreover have "p \<in> set (fold set_add (map fst (inputs (h c))) [])"
    using c(2) by (simp add: set_fold_set_add)
  ultimately have "c \<in> set (defaultdict_get (build_edges_in_to_out (build_edges_out_to_in h nodes)) p)"
    by (rule build_edges_in_to_out_member)
  with c(1) show "\<exists>c \<in> set ns. c \<in> set (defaultdict_get (build_edges_in_to_out (build_edges_out_to_in h nodes)) p)"
    by blast
qed

lemma release_pending:
  "release node ps (eoi, eio, q) = Inr (eoi', eio', q') \<Longrightarrow> node \<notin> S \<Longrightarrow>
     pending S eio \<Longrightarrow> set q \<inter> S = {} \<Longrightarrow> pending S eio' \<and> set q' \<inter> S = {}"
proof (induction ps arbitrary: eoi eio q)
  case Nil
  then show ?case by simp
next
  case (Cons in_node rest)
  let ?t = "removeAll node (defaultdict_get eio in_node)"
  let ?eio = "AList.update in_node ?t eio"
  let ?q = "if length ?t = 0 then q @ [in_node] else q"
  from Cons.prems(1) obtain s' where
    r: "release node rest (AList.update node s' eoi, ?eio, ?q) = Inr (eoi', eio', q')"
    by (auto simp: dict_get_def set_remove_def split: option.splits sum.splits if_splits)
  have keep: "pending S ?eio"
    unfolding pending_def
  proof
    fix p assume p: "p \<in> S"
    with Cons.prems(3) obtain c where c: "c \<in> S" "c \<in> set (defaultdict_get eio p)"
      by (auto simp: pending_def)
    with Cons.prems(2) have "c \<noteq> node" by blast
    with c show "\<exists>c \<in> S. c \<in> set (defaultdict_get ?eio p)"
      by (auto simp: defaultdict_get_update)
  qed
  have "set ?q \<inter> S = {}"
  proof (cases "in_node \<in> S")
    case True
    with Cons.prems(3) obtain c where c: "c \<in> S" "c \<in> set (defaultdict_get eio in_node)"
      by (auto simp: pending_def)
    with Cons.prems(2) have "c \<noteq> node" by blast
    with c(2) have "c \<in> set ?t" by simp
    then have "length ?t \<noteq> 0" by (metis length_pos_if_in_set less_numeral_extra(3))
    with Cons.prems(4) show ?thesis by simp
  next
    case False
    with Cons.prems(4) show ?thesis by simp
  qed
  with Cons.IH [OF r Cons.prems(2) keep] show ?case by blast
qed

lemma kahn_pending:
  "kahn q sorted_nodes eoi eio = Inr (sorted', eoi', eio') \<Longrightarrow>
     pending S eio \<Longrightarrow> set q \<inter> S = {} \<Longrightarrow> pending S eio'"
proof (induction q sorted_nodes eoi eio rule: kahn.induct)
  case (1 sorted_nodes eoi eio)
  then show ?case by simp
next
  case (2 node q sorted_nodes eoi eio)
  from "2.prems"(1) obtain s eoi1 eio1 q1 where
    s: "dict_get eoi node = Inr s" and
    r: "release node s (eoi, eio, q) = Inr (eoi1, eio1, q1)" and
    k: "kahn q1 (sorted_nodes @ [node]) eoi1 eio1 = Inr (sorted', eoi', eio')"
    by (auto split: sum.splits prod.splits)
  from "2.prems"(3) have "node \<notin> S" "set q \<inter> S = {}" by auto
  from release_pending [OF r this(1) "2.prems"(2) this(2)]
  have "pending S eio1" "set q1 \<inter> S = {}" by blast+
  with "2.IH" [OF s r _ _ k] show ?case by blast
qed

lemma edge_count_member: "(p, s) \<in> set d \<Longrightarrow> length s \<le> edge_count d"
  by (induction d) (auto simp: edge_count_def)

lemma pending_edge_count:
  assumes "pending S eio" and "S \<noteq> {}"
  shows "edge_count eio \<noteq> 0"
proof -
  from assms obtain p c where "c \<in> set (defaultdict_get eio p)"
    by (fastforce simp: pending_def)
  then obtain s where s: "map_of eio p = Some s" "s \<noteq> []"
    by (cases "map_of eio p") (fastforce simp: defaultdict_get_def)+
  then have "(p, s) \<in> set eio" by (auto dest: map_of_SomeD)
  then have "length s \<le> edge_count eio"
    by (rule edge_count_member)
  moreover from s(2) have "0 < length s" by simp
  ultimately show ?thesis by arith
qed

lemma check_connected_iff:
  "(check_connected ins sorted_nodes = Inr ()) = (set ins \<subseteq> set sorted_nodes)"
  by (induction ins) auto

lemma check_connected_error:
  "check_connected ins sorted_nodes = Inl e \<Longrightarrow>
     \<exists>n. n \<in> set ins \<and> n \<notin> set sorted_nodes \<and> e = AssertionError (NotConnected n)"
  by (induction ins) (auto split: if_splits)

lemma release_error: "release node ps st = Inl e \<Longrightarrow> e = KeyError"
proof (induction ps arbitrary: st)
  case Nil
  then show ?case by simp
next
  case (Cons in_node rest)
  obtain eoi eio q where st: "st = (eoi, eio, q)" by (cases st)
  from Cons.prems Cons.IH show ?case
    unfolding st
    by (auto simp: dict_get_def set_remove_def split: option.splits sum.splits if_splits)
qed

lemma kahn_error: "kahn q sorted_nodes eoi eio = Inl e \<Longrightarrow> e = KeyError"
proof (induction q sorted_nodes eoi eio rule: kahn.induct)
  case (1 sorted_nodes eoi eio)
  then show ?case by simp
next
  case (2 node q sorted_nodes eoi eio)
  show ?case
  proof (cases "dict_get eoi node")
    case (Inl e')
    with "2.prems" show ?thesis by (simp add: dict_get_def split: option.splits)
  next
    case (Inr s)
    show ?thesis
    proof (cases "release node s (eoi, eio, q)")
      case (Inl e')
      with Inr "2.prems" release_error show ?thesis by auto
    next
      case r: (Inr st)
      obtain eoi1 eio1 q1 where st: "st = (eoi1, eio1, q1)" by (cases st)
      from "2.prems" Inr r st have "kahn q1 (sorted_nodes @ [node]) eoi1 eio1 = Inl e" by simp
      with "2.IH" [OF Inr] r st show ?thesis by auto
    qed
  qed
qed

lemma check_connected_find:
  "check_connected ins sorted_nodes =
     (case find (\<lambda>n. n \<notin> set sorted_nodes) ins of
        None \<Rightarrow> Inr ()
      | Some n \<Rightarrow> Inl (AssertionError (NotConnected n)))"
  by (induction ins) auto

text \<open>
  C6, as amended. If the node list given to \<^verbatim>\<open>topological_order\<close> contains a
  dependency cycle none of whose nodes is an output node, the function raises an error
  and returns no order. The error is KeyError when the traversal takes a node that has
  no entry in the dependency map; when the traversal ends, it is the assertion error
  naming the first node of \<^verbatim>\<open>in_nodes\<close> that the traversal did not reach, which is
  checked first, and the cycle error exactly when every node of \<^verbatim>\<open>in_nodes\<close> was
  reached.
\<close>

theorem cycle_never_ordered:
  assumes "dependency_cycle h ns"
    and "set ns \<subseteq> set all_nodes"
    and "set ns \<inter> set outs = {}"
  shows "(\<exists>e. topological_order h all_nodes ins outs = Inl e) \<and>
    ((topological_order h all_nodes ins outs = Inl (ValueError GraphIsCyclic)) =
      (\<exists>sorted_nodes eoi eio.
         kahn outs [] (build_edges_out_to_in h (all_nodes @ outs))
           (build_edges_in_to_out (build_edges_out_to_in h (all_nodes @ outs)))
           = Inr (sorted_nodes, eoi, eio) \<and>
         set ins \<subseteq> set sorted_nodes)) \<and>
    topological_order h all_nodes ins outs =
      (case kahn outs [] (build_edges_out_to_in h (all_nodes @ outs))
              (build_edges_in_to_out (build_edges_out_to_in h (all_nodes @ outs))) of
         Inl e \<Rightarrow> Inl KeyError
       | Inr (sorted_nodes, eoi, eio) \<Rightarrow>
           (case find (\<lambda>n. n \<notin> set sorted_nodes) ins of
              Some n \<Rightarrow> Inl (AssertionError (NotConnected n))
            | None \<Rightarrow> Inl (ValueError GraphIsCyclic))) \<and>
    (topological_order h all_nodes ins outs = Inl (ValueError GraphIsCyclic) \<or>
     topological_order h all_nodes ins outs = Inl KeyError \<or>
     (\<exists>n. n \<in> set ins \<and>
        topological_order h all_nodes ins outs = Inl (AssertionError (NotConnected n))))"
proof -
  let ?eoi = "build_edges_out_to_in h (all_nodes @ outs)"
  let ?eio = "build_edges_in_to_out ?eoi"
  let ?t = "topological_order h all_nodes ins outs"
  from assms(1) have ne: "set ns \<noteq> {}"
    by (simp add: dependency_cycle_def)
  from assms(1,2) have start: "pending (set ns) ?eio"
    by (intro pending_initial) auto
  show ?thesis
  proof (cases "kahn outs [] ?eoi ?eio")
    case (Inl e)
    with kahn_error have "e = KeyError" by blast
    with Inl have "?t = Inl KeyError"
      by (simp add: topological_order_def)
    with Inl show ?thesis by simp
  next
    case (Inr r)
    obtain sorted_nodes eoi eio where r: "r = (sorted_nodes, eoi, eio)"
      by (cases r)
    from Inr r assms(3) start have "pending (set ns) eio"
      by (auto intro: kahn_pending)
    with ne have left: "edge_count eio \<noteq> 0"
      by (rule pending_edge_count [rotated])
    show ?thesis
    proof (cases "find (\<lambda>n. n \<notin> set sorted_nodes) ins")
      case None
      then have reached: "set ins \<subseteq> set sorted_nodes"
        by (auto simp: find_None_iff)
      from None left Inr r have "?t = Inl (ValueError GraphIsCyclic)"
        by (simp add: topological_order_def check_connected_find)
      with None Inr r reached show ?thesis by simp
    next
      case (Some n)
      then have n: "n \<in> set ins" "n \<notin> set sorted_nodes"
        by (auto simp: find_Some_iff)
      from Some Inr r have "?t = Inl (AssertionError (NotConnected n))"
        by (simp add: topological_order_def check_connected_find)
      with Some Inr r n show ?thesis by auto
    qed
  qed
qed

theorem cycle_never_ordered_witness:
  "dependency_cycle cyclic [1, 3] \<and>
   topological_order cyclic [0, 1, 3, 2] [0] [2] = Inl (AssertionError (NotConnected 0)) \<and>
   dependency_cycle detached_cycle [1, 3] \<and>
   topological_order detached_cycle [0, 1, 3, 2] [0] [2] = Inl (ValueError GraphIsCyclic) \<and>
   topological_order detached_cycle [1, 3, 2] [0] [2] = Inl KeyError"
proof -
  have c1: "dependency_cycle cyclic [1, 3]"
    by (simp add: dependency_cycle_def cyclic_def plain_node_def)
  have c2: "dependency_cycle detached_cycle [1, 3]"
    by (simp add: dependency_cycle_def detached_cycle_def plain_node_def)
  have sub: "set [1, 3] \<subseteq> set [0, 1, 3, 2::nat]" "set [1, 3] \<inter> set [2::nat] = {}"
    by simp_all
  have sub': "set [1, 3] \<subseteq> set [1, 3, 2::nat]"
    by simp
  have k1: "kahn [2] [] (build_edges_out_to_in cyclic ([0, 1, 3, 2] @ [2]))
       (build_edges_in_to_out (build_edges_out_to_in cyclic ([0, 1, 3, 2] @ [2])))
     = Inr ([2], [(0, []), (1, [0, 3]), (3, [1]), (2, [])], [(0, [1]), (3, [1]), (1, [3])])"
    by code_simp
  have k2: "kahn [2] [] (build_edges_out_to_in detached_cycle ([0, 1, 3, 2] @ [2]))
       (build_edges_in_to_out (build_edges_out_to_in detached_cycle ([0, 1, 3, 2] @ [2])))
     = Inr ([2, 0], [(0, []), (1, [3]), (3, [1]), (2, [])], [(3, [1]), (1, [3]), (0, [])])"
    by code_simp
  have k3: "kahn [2] [] (build_edges_out_to_in detached_cycle ([1, 3, 2] @ [2]))
       (build_edges_in_to_out (build_edges_out_to_in detached_cycle ([1, 3, 2] @ [2])))
     = Inl KeyError"
    by code_simp
  from cycle_never_ordered [OF c1 sub, of "[0]"] k1
  have "topological_order cyclic [0, 1, 3, 2] [0] [2] = Inl (AssertionError (NotConnected 0))"
    by simp
  moreover from cycle_never_ordered [OF c2 sub, of "[0]"] k2
  have "topological_order detached_cycle [0, 1, 3, 2] [0] [2] = Inl (ValueError GraphIsCyclic)"
    by simp
  moreover from cycle_never_ordered [OF c2 sub' sub(2), of "[0]"] k3
  have "topological_order detached_cycle [1, 3, 2] [0] [2] = Inl KeyError"
    by simp
  ultimately show ?thesis
    using c1 c2 by blast
qed

text \<open>
  The claim as written fails: the nodes 1 and 3 form a cycle, and the error raised is
  not the cycle error. The traversal stops at node 1, which keeps a consumer, so the
  input node 0 is never reached and the assertion on the input nodes fails first.
\<close>

theorem cycle_assertion_first_counterexample:
  "topological_order cyclic [0, 1, 3, 2] [0] [2] = Inl (AssertionError (NotConnected 0))"
  by code_simp

section \<open>What the defects mean for every graph\<close>

text \<open>
  The examples above are not special. The traversal only ever visits nodes that have an
  entry in the dependency map, and \<^verbatim>\<open>__init__\<close> builds the map from its input and
  output nodes and then asserts that every node of the list was visited: with automatic
  detection, a graph is accepted only if all its nodes are input or output nodes.
\<close>

lemma keys_fold_update:
  "fst ` set (fold (\<lambda>k d. AList.update k (f k) d) ks d) = set ks \<union> fst ` set d"
  by (induction ks arbitrary: d) (auto simp: dom_update)

lemma build_edges_out_to_in_keys:
  "fst ` set (build_edges_out_to_in h nodes) = set nodes"
  unfolding build_edges_out_to_in_def by (simp add: keys_fold_update)

lemma dict_get_key: "dict_get d k = Inr s \<Longrightarrow> k \<in> fst ` set d"
  by (auto simp: dict_get_def split: option.splits dest: map_of_SomeD intro: rev_image_eqI)

lemma release_keys:
  "release node ps (eoi, eio, q) = Inr (eoi', eio', q') \<Longrightarrow> fst ` set eoi' = fst ` set eoi"
proof (induction ps arbitrary: eoi eio q)
  case Nil
  then show ?case by simp
next
  case (Cons in_node rest)
  from Cons.prems obtain s s' t' where
    s: "dict_get eoi node = Inr s" and
    r: "release node rest (AList.update node s' eoi, AList.update in_node t' eio,
          if length t' = 0 then q @ [in_node] else q) = Inr (eoi', eio', q')"
    by (auto split: sum.splits)
  from Cons.IH [OF r] have "fst ` set eoi' = fst ` set (AList.update node s' eoi)" .
  also have "\<dots> = fst ` set eoi"
    using dict_get_key [OF s] by (auto simp: dom_update)
  finally show ?case .
qed

lemma kahn_sorted_keys:
  "kahn q sorted_nodes eoi eio = Inr (sorted', eoi', eio') \<Longrightarrow>
     set sorted' \<subseteq> set sorted_nodes \<union> fst ` set eoi"
proof (induction q sorted_nodes eoi eio rule: kahn.induct)
  case (1 sorted_nodes eoi eio)
  then show ?case by simp
next
  case (2 node q sorted_nodes eoi eio)
  from "2.prems" obtain s eoi1 eio1 q1 where
    s: "dict_get eoi node = Inr s" and
    r: "release node s (eoi, eio, q) = Inr (eoi1, eio1, q1)" and
    k: "kahn q1 (sorted_nodes @ [node]) eoi1 eio1 = Inr (sorted', eoi', eio')"
    by (auto split: sum.splits prod.splits)
  from "2.IH" [OF s r _ _ k] have "set sorted' \<subseteq> set (sorted_nodes @ [node]) \<union> fst ` set eoi1"
    by simp
  with release_keys [OF r] dict_get_key [OF s] show ?case by auto
qed

lemma topological_order_within_keys:
  assumes "topological_order h all_nodes ins outs = Inr order"
  shows "set ins \<subseteq> set order \<and> set order \<subseteq> set all_nodes \<union> set outs"
proof -
  from assms obtain sorted_nodes eoi eio where
    k: "kahn outs [] (build_edges_out_to_in h (all_nodes @ outs))
          (build_edges_in_to_out (build_edges_out_to_in h (all_nodes @ outs)))
        = Inr (sorted_nodes, eoi, eio)" and
    c: "check_connected ins sorted_nodes = Inr ()" and
    o: "order = rev sorted_nodes"
    by (auto simp: topological_order_def Let_def split: sum.splits if_splits prod.splits)
  from kahn_sorted_keys [OF k] have "set sorted_nodes \<subseteq> set all_nodes \<union> set outs"
    by (simp add: build_edges_out_to_in_keys)
  moreover from c have "set ins \<subseteq> set sorted_nodes"
    by (simp add: check_connected_iff)
  ultimately show ?thesis using o by simp
qed

lemma init_accepts_boundary_nodes_only:
  assumes "init h nodes None None force = Inr g"
  shows "set nodes \<subseteq> set (module_list g) \<and>
         list_all (\<lambda>n. cls (h n) = InputNode \<or> cls (h n) = OutputNode) nodes"
proof -
  let ?ins = "filter (\<lambda>n. cls (h n) = InputNode) nodes"
  let ?outs = "filter (\<lambda>n. cls (h n) = OutputNode) nodes"
  from assms have t: "topological_order h ?ins nodes ?outs = Inr (module_list g)"
    by (auto simp: init_def boundary_nodes_def Let_def split: sum.splits if_splits)
  from topological_order_within_keys [OF t]
  have "set nodes \<subseteq> set (module_list g)" "set (module_list g) \<subseteq> set ?ins \<union> set ?outs"
    by simp_all
  then show ?thesis by (auto simp: list_all_iff)
qed

text \<open>
  With Jacobian tracking, the first visited node already raises: the accumulator is
  \<^verbatim>\<open>None\<close> when its Jacobian is added.
\<close>

lemma visit_tracking_raises:
  "\<exists>e. visit h rv True node (outs, None) = Inl e"
  by (auto simp: visit_def split: sum.splits option.splits)

lemma forward_tracking_raises:
  assumes "node_list self = Some (node # rest)"
  shows "\<exists>e. forward h self x_or_z c rv True intermediate_outputs = Inl e"
proof -
  have first: "\<exists>e. visit_all h rv True (n # ns) (outs, None) = Inl e" for n ns outs
    using visit_tracking_raises [of h rv n outs] by auto
  obtain n ns where "(if rv then rev (node # rest) else node # rest) = n # ns"
    by (cases "if rv then rev (node # rest) else node # rest") (auto split: if_splits)
  with first [of n ns "seed_outs self x_or_z c rv"] assms show ?thesis
    by (auto simp: forward_def)
qed

text \<open>
  No visit writes an entry whose key holds a node, so the entries under node keys are
  the seeded ones to the end, and the tensors returned are seeds of the output nodes in
  both directions.
\<close>

lemma write_outs_node_keys: "write_outs outs i vs (NodeObj n, k) = outs (NodeObj n, k)"
  by (induction vs arbitrary: outs i) simp_all

lemma visit_node_keys:
  "visit h rv jac node (outs, jacobian) = Inr (outs', jacobian') \<Longrightarrow>
     outs' (NodeObj n, k) = outs (NodeObj n, k)"
  by (auto simp: visit_def write_outs_node_keys split: sum.splits option.splits if_splits)

lemma visit_all_node_keys:
  "visit_all h rv jac nodes (outs, jacobian) = Inr (outs', jacobian') \<Longrightarrow>
     outs' (NodeObj n, k) = outs (NodeObj n, k)"
proof (induction nodes arbitrary: outs jacobian)
  case Nil
  then show ?case by simp
next
  case (Cons node nodes)
  from Cons.prems obtain outs1 jacobian1 where
    v: "visit h rv jac node (outs, jacobian) = Inr (outs1, jacobian1)" and
    r: "visit_all h rv jac nodes (outs1, jacobian1) = Inr (outs', jacobian')"
    by (auto split: sum.splits)
  from Cons.IH [OF r] visit_node_keys [OF v] show ?case by simp
qed

lemma forward_node_entries_are_seeds:
  "forward h self x_or_z c rv jac True = Inr (Intermediate outs jacobian) \<Longrightarrow>
     outs (NodeObj n, k) = seed_outs self x_or_z c rv (NodeObj n, k)"
  by (auto simp: forward_def split: option.splits sum.splits dest: visit_all_node_keys)

lemma gather_cong: "list_all (\<lambda>k. a k = b k) ks \<Longrightarrow> gather a ks = gather b ks"
  by (induction ks) (auto split: option.splits sum.splits)
lemma forward_returns_seeds:
  assumes "forward h self x_or_z c rv jac False = Inr r"
  shows "gather (seed_outs self x_or_z c rv) (map (\<lambda>out_node. (NodeObj out_node, 0)) (out_nodes self))
           = Inr (returned r)"
proof -
  let ?keys = "map (\<lambda>out_node. (NodeObj out_node, 0)) (out_nodes self)"
  from assms obtain nodes outs' jacobian' out_list where
    v: "visit_all h rv jac (if rv then rev nodes else nodes) (seed_outs self x_or_z c rv, None)
          = Inr (outs', jacobian')" and
    g: "gather outs' ?keys = Inr out_list" and
    r: "r = (if length out_list = 1 \<and> \<not> force_tuple_output self
             then Single (out_list ! 0) jacobian' else Multiple out_list jacobian')"
    by (auto simp: forward_def split: option.splits sum.splits if_splits)
  have "list_all (\<lambda>k. outs' k = seed_outs self x_or_z c rv k) ?keys"
    using visit_all_node_keys [OF v] by (simp add: list_all_iff)
  then have "gather outs' ?keys = gather (seed_outs self x_or_z c rv) ?keys"
    by (rule gather_cong)
  moreover have "returned r = out_list"
    unfolding r by (cases out_list) auto
  ultimately show ?thesis using g by simp
qed

end
